theory Spec2Isabelle
  imports Complex_Main
begin

section \<open>The PlaneStrike environment (planestrike\_py\_environment.py)\<close>

text \<open>
  A shallow embedding of the class \<open>PlaneStrikePyEnvironment\<close>. The object is a record
  that every method takes and returns; the module-wide random source of Python's
  \<open>random\<close> is a second piece of state, threaded through the methods that draw from it.
  Exceptions are values of the type \<open>error\<close>. The cells of both boards are numpy floats
  that only ever hold the module constants \<open>0\<close>, \<open>1\<close> and \<open>-1\<close>; they are modelled as
  integers.
\<close>

subsection \<open>Module constants\<close>

definition BOARD_SIZE :: int where
  "BOARD_SIZE = 8"

definition PLANE_SIZE :: int where
  "PLANE_SIZE = 8"

definition MAX_STEPS_PER_EPISODE :: int where
  "MAX_STEPS_PER_EPISODE = BOARD_SIZE ^ 2"

definition PLANE_HEADING_RIGHT :: int where
  "PLANE_HEADING_RIGHT = 0"

definition PLANE_HEADING_UP :: int where
  "PLANE_HEADING_UP = 1"

definition PLANE_HEADING_LEFT :: int where
  "PLANE_HEADING_LEFT = 2"

definition PLANE_HEADING_DOWN :: int where
  "PLANE_HEADING_DOWN = 3"

definition HIT_REWARD :: int where
  "HIT_REWARD = 1"

definition MISS_REWARD :: int where
  "MISS_REWARD = 0"

definition REPEAT_STRIKE_REWARD :: int where
  "REPEAT_STRIKE_REWARD = - 1"

definition FINISHED_GAME_REWARD :: int where
  "FINISHED_GAME_REWARD = 10"

definition UNFINISHED_GAME_REWARD :: int where
  "UNFINISHED_GAME_REWARD = - 10"

definition HIDDEN_BOARD_CELL_OCCUPIED :: int where
  "HIDDEN_BOARD_CELL_OCCUPIED = 1"

definition HIDDEN_BOARD_CELL_UNOCCUPIED :: int where
  "HIDDEN_BOARD_CELL_UNOCCUPIED = 0"

definition VISIBLE_BOARD_CELL_HIT :: int where
  "VISIBLE_BOARD_CELL_HIT = 1"

definition VISIBLE_BOARD_CELL_MISS :: int where
  "VISIBLE_BOARD_CELL_MISS = - 1"

definition VISIBLE_BOARD_CELL_UNTRIED :: int where
  "VISIBLE_BOARD_CELL_UNTRIED = 0"

subsection \<open>Errors, arrays and the random source\<close>

datatype error =
    AssertionError
  | ValueError string
  | IndexError
  | UnboundLocalError

type_synonym board = "int list list"

text \<open>
  \<open>np.ones((n, n)) * v\<close> and \<open>np.zeros((n, n))\<close>: an \<open>n\<close> by \<open>n\<close> array filled with one
  value. numpy refuses a negative dimension.
\<close>

definition np_full :: "int \<Rightarrow> int \<Rightarrow> error + board" where
  "np_full n v =
     (if n < 0 then Inl (ValueError ''negative dimensions are not allowed'')
      else Inr (replicate (nat n) (replicate (nat n) v)))"

text \<open>
  \<open>a[r][c] = v\<close> on a two-dimensional array: each index may be negative, counting from
  the end, and an index outside \<open>[-n, n)\<close> raises IndexError.
\<close>

definition setitem :: "board \<Rightarrow> int \<Rightarrow> int \<Rightarrow> int \<Rightarrow> error + board" where
  "setitem a r c v =
     (let n = int (length a) in
      if r < - n \<or> n \<le> r then Inl IndexError
      else
        let i = nat (if r < 0 then n + r else r);
            m = int (length (a ! i)) in
        if c < - m \<or> m \<le> c then Inl IndexError
        else
          let j = nat (if c < 0 then m + c else c) in
          Inr (a[i := (a ! i)[j := v]]))"

text \<open>
  The random source is an endless sequence of raw draws. \<open>random.randint(a, b)\<close>
  consumes one draw and maps it into \<open>[a, b]\<close>; on an empty range it raises ValueError
  and consumes nothing.
\<close>

type_synonym rng = "nat \<Rightarrow> nat"

type_synonym 'a rand = "rng \<Rightarrow> (error + 'a) \<times> rng"

definition randint :: "int \<Rightarrow> int \<Rightarrow> int rand" where
  "randint a b g =
     (if b < a then (Inl (ValueError ''empty range for randrange()''), g)
      else (Inr (a + int (g 0 mod nat (b - a + 1))), \<lambda>k. g (Suc k)))"

definition rreturn :: "'a \<Rightarrow> 'a rand" where
  "rreturn x g = (Inr x, g)"

definition rlift :: "error + 'a \<Rightarrow> 'a rand" where
  "rlift m g = (m, g)"

definition rbind :: "'a rand \<Rightarrow> ('a \<Rightarrow> 'b rand) \<Rightarrow> 'b rand" where
  "rbind m f g =
     (case m g of
        (Inl e, g') \<Rightarrow> (Inl e, g')
      | (Inr x, g') \<Rightarrow> f x g')"

subsection \<open>Time steps of the framework\<close>

text \<open>
  \<open>ts.restart(observation)\<close> of the tf\_agents library builds the first time step of an
  episode: step type \<open>FIRST\<close>, reward \<open>0.0\<close>, discount \<open>1.0\<close>. A time step is terminal
  exactly when its step type is \<open>LAST\<close>.
\<close>

datatype step_type = FIRST | MID | LAST

record time_step =
  ts_step_type :: step_type
  ts_reward :: real
  ts_discount :: real
  ts_observation :: board



subsection \<open>The environment object\<close>

text \<open>
  A \<open>BoundedArraySpec\<close> keeps the shape and the bounds it was given. The field
  \<open>self_x\<close> of the record is the attribute \<open>self._x\<close> of the class.
\<close>

record bounded_array_spec =
  spec_shape :: "int list"
  spec_minimum :: int
  spec_maximum :: int

record session =
  self_board_size :: int
  self_strike_count :: int
  self_discount :: real
  self_max_steps :: int
  self_episode_ended :: bool
  self_action_spec :: bounded_array_spec
  self_observation_spec :: bounded_array_spec
  self_time_step_spec :: bounded_array_spec
  self_plane_size :: int
  self_hit_count :: int
  self_visible_board :: board
  self_hidden_board :: board

text \<open>
  \<open>initialize_random_hidden_board\<close> draws the orientation, then the core cell from the
  range of that orientation, writes the three tail cells and then the five cells of the
  cross. Were no branch of the \<open>if\<close> chain taken, the core would be unbound where the
  cross is written.
\<close>

definition initialize_random_hidden_board :: "int \<Rightarrow> board rand" where
  "initialize_random_hidden_board board_size =
     rbind (rlift (np_full board_size HIDDEN_BOARD_CELL_UNOCCUPIED)) (\<lambda>hidden_board.
     rbind (randint 0 3) (\<lambda>plane_orientation.
     rbind
       (if plane_orientation = PLANE_HEADING_RIGHT then
          rbind (randint 1 (board_size - 2)) (\<lambda>plane_core_row.
          rbind (randint 2 (board_size - 2)) (\<lambda>plane_core_column.
          rbind (rlift (setitem hidden_board plane_core_row (plane_core_column - 2)
                   HIDDEN_BOARD_CELL_OCCUPIED)) (\<lambda>hb1.
          rbind (rlift (setitem hb1 (plane_core_row - 1) (plane_core_column - 2)
                   HIDDEN_BOARD_CELL_OCCUPIED)) (\<lambda>hb2.
          rbind (rlift (setitem hb2 (plane_core_row + 1) (plane_core_column - 2)
                   HIDDEN_BOARD_CELL_OCCUPIED)) (\<lambda>hb3.
          rreturn (plane_core_row, plane_core_column, hb3))))))
        else if plane_orientation = PLANE_HEADING_UP then
          rbind (randint 1 (board_size - 3)) (\<lambda>plane_core_row.
          rbind (randint 1 (board_size - 3)) (\<lambda>plane_core_column.
          rbind (rlift (setitem hidden_board (plane_core_row + 2) plane_core_column
                   HIDDEN_BOARD_CELL_OCCUPIED)) (\<lambda>hb1.
          rbind (rlift (setitem hb1 (plane_core_row + 2) (plane_core_column + 1)
                   HIDDEN_BOARD_CELL_OCCUPIED)) (\<lambda>hb2.
          rbind (rlift (setitem hb2 (plane_core_row + 2) (plane_core_column - 1)
                   HIDDEN_BOARD_CELL_OCCUPIED)) (\<lambda>hb3.
          rreturn (plane_core_row, plane_core_column, hb3))))))
        else if plane_orientation = PLANE_HEADING_LEFT then
          rbind (randint 1 (board_size - 2)) (\<lambda>plane_core_row.
          rbind (randint 1 (board_size - 3)) (\<lambda>plane_core_column.
          rbind (rlift (setitem hidden_board plane_core_row (plane_core_column + 2)
                   HIDDEN_BOARD_CELL_OCCUPIED)) (\<lambda>hb1.
          rbind (rlift (setitem hb1 (plane_core_row - 1) (plane_core_column + 2)
                   HIDDEN_BOARD_CELL_OCCUPIED)) (\<lambda>hb2.
          rbind (rlift (setitem hb2 (plane_core_row + 1) (plane_core_column + 2)
                   HIDDEN_BOARD_CELL_OCCUPIED)) (\<lambda>hb3.
          rreturn (plane_core_row, plane_core_column, hb3))))))
        else if plane_orientation = PLANE_HEADING_DOWN then
          rbind (randint 2 (board_size - 2)) (\<lambda>plane_core_row.
          rbind (randint 1 (board_size - 2)) (\<lambda>plane_core_column.
          rbind (rlift (setitem hidden_board (plane_core_row - 2) plane_core_column
                   HIDDEN_BOARD_CELL_OCCUPIED)) (\<lambda>hb1.
          rbind (rlift (setitem hb1 (plane_core_row - 2) (plane_core_column + 1)
                   HIDDEN_BOARD_CELL_OCCUPIED)) (\<lambda>hb2.
          rbind (rlift (setitem hb2 (plane_core_row - 2) (plane_core_column - 1)
                   HIDDEN_BOARD_CELL_OCCUPIED)) (\<lambda>hb3.
          rreturn (plane_core_row, plane_core_column, hb3))))))
        else rlift (Inl UnboundLocalError))
       (\<lambda>(plane_core_row, plane_core_column, hb3).
     rbind (rlift (setitem hb3 plane_core_row plane_core_column
              HIDDEN_BOARD_CELL_OCCUPIED)) (\<lambda>hb4.
     rbind (rlift (setitem hb4 (plane_core_row + 1) plane_core_column
              HIDDEN_BOARD_CELL_OCCUPIED)) (\<lambda>hb5.
     rbind (rlift (setitem hb5 (plane_core_row - 1) plane_core_column
              HIDDEN_BOARD_CELL_OCCUPIED)) (\<lambda>hb6.
     rbind (rlift (setitem hb6 plane_core_row (plane_core_column + 1)
              HIDDEN_BOARD_CELL_OCCUPIED)) (\<lambda>hb7.
     rbind (rlift (setitem hb7 plane_core_row (plane_core_column - 1)
              HIDDEN_BOARD_CELL_OCCUPIED)) (\<lambda>hb8.
     rreturn hb8))))))))"

text \<open>
  \<open>set_boards\<close> assigns four attributes in turn. An exception leaves the assignments made
  before it in place.
\<close>

definition set_boards :: "session \<Rightarrow> rng \<Rightarrow> (error + unit) \<times> session \<times> rng" where
  "set_boards self g =
     (let self1 = self\<lparr>self_plane_size := PLANE_SIZE\<rparr>;
          self2 = self1\<lparr>self_hit_count := 0\<rparr>
      in case np_full (self_board_size self2) 0 of
           Inl e \<Rightarrow> (Inl e, self2, g)
         | Inr zeros \<Rightarrow>
             let self3 = self2\<lparr>self_visible_board := zeros\<rparr>
             in (case initialize_random_hidden_board (self_board_size self3) g of
                   (Inl e, g') \<Rightarrow> (Inl e, self3, g')
                 | (Inr hidden, g') \<Rightarrow> (Inr (), self3\<lparr>self_hidden_board := hidden\<rparr>, g')))"

text \<open>
  The constructor. An argument that the caller leaves out is \<open>None\<close> and takes the
  default of the signature, which Python evaluated once, when the class was defined.
  The four attributes that \<open>set_boards\<close> creates do not exist before it runs; the record
  holds placeholders for them until then. A constructor that raises yields no object.
\<close>

definition init :: "int option \<Rightarrow> real option \<Rightarrow> int option \<Rightarrow> rng \<Rightarrow> (error + session) \<times> rng" where
  "init board_size_arg discount_arg max_steps_arg g =
     (let board_size = (case board_size_arg of None \<Rightarrow> BOARD_SIZE | Some n \<Rightarrow> n);
          discount = (case discount_arg of None \<Rightarrow> 9 / 10 | Some d \<Rightarrow> d);
          max_steps = (case max_steps_arg of None \<Rightarrow> MAX_STEPS_PER_EPISODE | Some m \<Rightarrow> m)
      in if \<not> 4 \<le> board_size then (Inl AssertionError, g)
         else
           let observation_spec =
                 \<lparr>spec_shape = [board_size, board_size],
                  spec_minimum = VISIBLE_BOARD_CELL_MISS,
                  spec_maximum = VISIBLE_BOARD_CELL_HIT\<rparr>;
               self =
                 \<lparr>self_board_size = board_size,
                  self_strike_count = 0,
                  self_discount = discount,
                  self_max_steps = max_steps,
                  self_episode_ended = False,
                  self_action_spec =
                    \<lparr>spec_shape = [], spec_minimum = 0, spec_maximum = board_size ^ 2 - 1\<rparr>,
                  self_observation_spec = observation_spec,
                  self_time_step_spec = observation_spec,
                  self_plane_size = 0,
                  self_hit_count = 0,
                  self_visible_board = [],
                  self_hidden_board = []\<rparr>
           in (case set_boards self g of
                 (Inl e, self', g') \<Rightarrow> (Inl e, g')
               | (Inr u, self', g') \<Rightarrow> (Inr self', g')))"


text \<open>
  The body of \<open>_step\<close> is its docstring and a comment: for every action the method
  returns \<open>None\<close>, raises nothing and assigns nothing.
\<close>

definition step :: "session \<Rightarrow> int \<Rightarrow> (error + time_step option) \<times> session" where
  "step self action = (Inr None, self)"

text \<open>
  \<open>render\<close> raises on every mode but \<open>human\<close> and otherwise hands out the visible board.
  It is a method of the object, so it returns the object as it leaves it.
\<close>

definition render :: "session \<Rightarrow> string \<Rightarrow> (error + board) \<times> session" where
  "render self mode =
     (if mode \<noteq> ''human''
      then (Inl (ValueError (''Only rendering mode supported is 'human', got '' @ mode @ '' instead.'')), self)
      else (Inr (self_visible_board self), self))"

section \<open>The plane shape of the design document\<close>

text \<open>
  These definitions follow section 4.1 of the design document, not the code: the cross is
  the core cell and its four orthogonal neighbours, and the tail is the bar of three
  cells two steps from the core, on the side that the heading determines. A board
  satisfies \<open>plane_invariant\<close> when it is square of the given size, every cell is
  occupied or unoccupied, exactly eight cells are occupied, and the occupied cells are
  the cells of one template, all of them inside the board.
\<close>

datatype heading = Heading_Right | Heading_Up | Heading_Left | Heading_Down

definition cross_cells :: "int \<Rightarrow> int \<Rightarrow> (int \<times> int) list" where
  "cross_cells row col =
     [(row, col), (row - 1, col), (row + 1, col), (row, col - 1), (row, col + 1)]"

fun tail_cells :: "heading \<Rightarrow> int \<Rightarrow> int \<Rightarrow> (int \<times> int) list" where
  "tail_cells Heading_Right row col = [(row - 1, col - 2), (row, col - 2), (row + 1, col - 2)]"
| "tail_cells Heading_Up row col = [(row + 2, col - 1), (row + 2, col), (row + 2, col + 1)]"
| "tail_cells Heading_Left row col = [(row - 1, col + 2), (row, col + 2), (row + 1, col + 2)]"
| "tail_cells Heading_Down row col = [(row - 2, col - 1), (row - 2, col), (row - 2, col + 1)]"

definition plane_cells :: "heading \<Rightarrow> int \<Rightarrow> int \<Rightarrow> (int \<times> int) list" where
  "plane_cells h row col = cross_cells row col @ tail_cells h row col"

definition in_bounds :: "int \<Rightarrow> int \<times> int \<Rightarrow> bool" where
  "in_bounds n p = (0 \<le> fst p \<and> fst p < n \<and> 0 \<le> snd p \<and> snd p < n)"

definition wf_board :: "int \<Rightarrow> board \<Rightarrow> bool" where
  "wf_board n a = (0 \<le> n \<and> length a = nat n \<and> (\<forall>row \<in> set a. length row = nat n))"

definition cell :: "board \<Rightarrow> int \<times> int \<Rightarrow> int" where
  "cell a p = a ! nat (fst p) ! nat (snd p)"

definition occupied_cells :: "int \<Rightarrow> board \<Rightarrow> (int \<times> int) list" where
  "occupied_cells n a =
     filter (\<lambda>p. cell a p = HIDDEN_BOARD_CELL_OCCUPIED) (List.product [0..n - 1] [0..n - 1])"

definition plane_invariant :: "int \<Rightarrow> board \<Rightarrow> bool" where
  "plane_invariant n a =
     (wf_board n a
      \<and> (\<forall>p \<in> set (List.product [0..n - 1] [0..n - 1]).
            cell a p = HIDDEN_BOARD_CELL_OCCUPIED \<or> cell a p = HIDDEN_BOARD_CELL_UNOCCUPIED)
      \<and> length (occupied_cells n a) = 8
      \<and> (\<exists>h \<in> set [Heading_Right, Heading_Up, Heading_Left, Heading_Down].
          \<exists>row \<in> set [0..n - 1]. \<exists>col \<in> set [0..n - 1].
            set (occupied_cells n a) = set (plane_cells h row col)
            \<and> (\<forall>p \<in> set (plane_cells h row col). in_bounds n p)))"

text \<open>
  \<open>mark\<close> is the board after a list of cells has been written as occupied, in order.
  It serves the proofs: the eight assignments of the generator collapse into one \<open>mark\<close>.
\<close>

fun mark :: "board \<Rightarrow> (int \<times> int) list \<Rightarrow> board" where
  "mark a [] = a"
| "mark a (p # ps) =
     mark (a[nat (fst p) := (a ! nat (fst p))[nat (snd p) := HIDDEN_BOARD_CELL_OCCUPIED]]) ps"

text \<open>A random source that yields the same raw draw forever, for concrete runs.\<close>

definition fixed_draws :: "nat \<Rightarrow> rng" where
  "fixed_draws d k = d"

section \<open>Sessions\<close>

text \<open>
  The visible board on which no cell has been struck, as \<open>np.zeros\<close> builds it.
\<close>

definition untried_board :: "int \<Rightarrow> board" where
  "untried_board n = replicate (nat n) (replicate (nat n) VISIBLE_BOARD_CELL_UNTRIED)"


text \<open>
  The object that the constructor builds for \<open>board_size = 4\<close> and the defaults, from a
  random source whose raw draws are all \<open>0\<close>: the plane heads right, with its core at
  row 1, column 2.
\<close>

definition session_4x4 :: session where
  "session_4x4 =
     \<lparr>self_board_size = 4,
      self_strike_count = 0,
      self_discount = 9 / 10,
      self_max_steps = 64,
      self_episode_ended = False,
      self_action_spec = \<lparr>spec_shape = [], spec_minimum = 0, spec_maximum = 15\<rparr>,
      self_observation_spec = \<lparr>spec_shape = [4, 4], spec_minimum = - 1, spec_maximum = 1\<rparr>,
      self_time_step_spec = \<lparr>spec_shape = [4, 4], spec_minimum = - 1, spec_maximum = 1\<rparr>,
      self_plane_size = 8,
      self_hit_count = 0,
      self_visible_board = [[0, 0, 0, 0], [0, 0, 0, 0], [0, 0, 0, 0], [0, 0, 0, 0]],
      self_hidden_board = [[1, 0, 1, 0], [1, 1, 1, 1], [1, 0, 1, 0], [0, 0, 0, 0]]\<rparr>"

section \<open>Properties\<close>

subsection \<open>Arrays, draws and the generator\<close>

lemma randint_in_range:
  assumes "a \<le> b"
  shows "\<exists>v. randint a b g = (Inr v, \<lambda>k. g (Suc k)) \<and> a \<le> v \<and> v \<le> b"
proof -
  let ?v = "a + int (g 0 mod nat (b - a + 1))"
  have run: "randint a b g = (Inr ?v, \<lambda>k. g (Suc k))"
    using assms by (simp add: randint_def)
  have "g 0 mod nat (b - a + 1) < nat (b - a + 1)"
    using assms by (intro mod_less_divisor) simp
  then have "?v \<le> b"
    using assms by linarith
  with run show ?thesis by simp
qed

lemma wf_board_update:
  assumes wf: "wf_board n a"
  shows "wf_board n (a[i := (a ! i)[j := v]])"
proof (cases "i < length a")
  case True
  have "length ((a ! i)[j := v]) = nat n"
    using wf True by (simp add: wf_board_def)
  moreover have "set (a[i := (a ! i)[j := v]]) \<subseteq> insert ((a ! i)[j := v]) (set a)"
    by (rule set_update_subset_insert)
  ultimately show ?thesis
    using wf by (auto simp: wf_board_def)
next
  case False
  then have "a[i := (a ! i)[j := v]] = a"
    by (intro list_update_beyond) simp
  then show ?thesis using wf by simp
qed

lemma wf_board_mark: "wf_board n a \<Longrightarrow> wf_board n (mark a ps)"
  by (induction ps arbitrary: a) (simp_all add: wf_board_update)

lemma mark_append: "mark (mark a ps) qs = mark a (ps @ qs)"
  by (induction ps arbitrary: a) simp_all

lemma setitem_in_bounds:
  assumes "wf_board n a" "in_bounds n (r, c)"
  shows "setitem a r c HIDDEN_BOARD_CELL_OCCUPIED = Inr (mark a [(r, c)])"
proof -
  have "length a = nat n" "0 \<le> r" "r < n" "0 \<le> c" "c < n"
    using assms by (simp_all add: wf_board_def in_bounds_def)
  moreover have "length (a ! nat r) = nat n"
    using assms calculation by (simp add: wf_board_def)
  ultimately show ?thesis
    by (simp add: setitem_def Let_def)
qed

lemma rbind_setitem:
  assumes "wf_board n a" "in_bounds n (r, c)"
  shows "rbind (rlift (setitem a r c HIDDEN_BOARD_CELL_OCCUPIED)) f g = f (mark a [(r, c)]) g"
  by (simp add: setitem_in_bounds[OF assms] rbind_def rlift_def)

lemma cell_update:
  assumes "wf_board n a" "in_bounds n p" "in_bounds n q"
  shows "cell (a[nat (fst p) := (a ! nat (fst p))[nat (snd p) := v]]) q
           = (if q = p then v else cell a q)"
proof -
  have len: "length a = nat n" and rows: "\<And>i. i < nat n \<Longrightarrow> length (a ! i) = nat n"
    using assms(1) by (simp_all add: wf_board_def)
  have p: "nat (fst p) < nat n" "nat (snd p) < nat n" and q: "nat (fst q) < nat n" "nat (snd q) < nat n"
    using assms(2,3) by (simp_all add: in_bounds_def)
  have eq: "q = p \<longleftrightarrow> nat (fst q) = nat (fst p) \<and> nat (snd q) = nat (snd p)"
    using assms(2,3) by (auto simp: in_bounds_def prod_eq_iff)
  show ?thesis
    unfolding cell_def eq using len rows[OF p(1)] p q
    by (simp add: nth_list_update)
qed

lemma cell_mark:
  assumes "wf_board n a" "\<forall>p \<in> set ps. in_bounds n p" "in_bounds n q"
  shows "cell (mark a ps) q = (if q \<in> set ps then HIDDEN_BOARD_CELL_OCCUPIED else cell a q)"
  using assms
proof (induction ps arbitrary: a)
  case Nil
  then show ?case by simp
next
  case (Cons p ps)
  let ?a = "a[nat (fst p) := (a ! nat (fst p))[nat (snd p) := HIDDEN_BOARD_CELL_OCCUPIED]]"
  have wf: "wf_board n ?a" using Cons.prems(1) by (rule wf_board_update)
  have "cell (mark ?a ps) q = (if q \<in> set ps then HIDDEN_BOARD_CELL_OCCUPIED else cell ?a q)"
    using Cons.IH[OF wf] Cons.prems by simp
  moreover have "cell ?a q = (if q = p then HIDDEN_BOARD_CELL_OCCUPIED else cell a q)"
    using Cons.prems by (intro cell_update) simp_all
  ultimately show ?case by (cases "q = p") simp_all
qed

lemma wf_board_zeros: "0 \<le> n \<Longrightarrow> wf_board n (replicate (nat n) (replicate (nat n) v))"
  by (simp add: wf_board_def)

lemma cell_zeros: "in_bounds n p \<Longrightarrow> cell (replicate (nat n) (replicate (nat n) v)) p = v"
  by (simp add: cell_def in_bounds_def)

lemma set_product_upto: "set (List.product [0..n - 1] [0..n - 1]) = {p. in_bounds n p}"
  by (auto simp: in_bounds_def)

lemma plane_invariant_mark:
  assumes n: "0 \<le> n"
    and bounds: "\<forall>p \<in> set ps. in_bounds n p"
    and dist: "distinct ps" and len: "length ps = 8"
    and shape: "set ps = set (plane_cells h row col)"
    and core: "in_bounds n (row, col)"
  shows "plane_invariant n (mark (replicate (nat n) (replicate (nat n) HIDDEN_BOARD_CELL_UNOCCUPIED)) ps)"
proof -
  let ?z = "replicate (nat n) (replicate (nat n) HIDDEN_BOARD_CELL_UNOCCUPIED)"
  let ?a = "mark ?z ps"
  have wfz: "wf_board n ?z" using n by (rule wf_board_zeros)
  have wf: "wf_board n ?a" using wfz by (rule wf_board_mark)
  have cells: "cell ?a q = (if q \<in> set ps then HIDDEN_BOARD_CELL_OCCUPIED else HIDDEN_BOARD_CELL_UNOCCUPIED)"
    if "in_bounds n q" for q
    using cell_mark[OF wfz bounds that] cell_zeros[OF that] by simp
  have occ: "set (occupied_cells n ?a) = set ps"
  proof (rule set_eqI)
    fix q
    have mem: "q \<in> set (occupied_cells n ?a)
                 \<longleftrightarrow> in_bounds n q \<and> cell ?a q = HIDDEN_BOARD_CELL_OCCUPIED"
      unfolding occupied_cells_def set_filter set_product_upto by simp
    show "q \<in> set (occupied_cells n ?a) \<longleftrightarrow> q \<in> set ps"
    proof (cases "in_bounds n q")
      case True
      then show ?thesis
        unfolding mem using cells[OF True]
        by (simp add: HIDDEN_BOARD_CELL_OCCUPIED_def HIDDEN_BOARD_CELL_UNOCCUPIED_def)
    next
      case False
      then show ?thesis
        unfolding mem using bounds by auto
    qed
  qed
  have "distinct (occupied_cells n ?a)"
    by (simp add: occupied_cells_def distinct_product)
  then have "length (occupied_cells n ?a) = card (set ps)"
    using occ distinct_card by metis
  then have cnt: "length (occupied_cells n ?a) = 8"
    using dist len by (simp add: distinct_card)
  have h: "h \<in> set [Heading_Right, Heading_Up, Heading_Left, Heading_Down]"
    by (cases h) simp_all
  have rc: "row \<in> set [0..n - 1]" "col \<in> set [0..n - 1]"
    using core by (simp_all add: in_bounds_def)
  have inb: "\<forall>p \<in> set (plane_cells h row col). in_bounds n p"
    using bounds shape by simp
  have vals: "\<forall>p \<in> set (List.product [0..n - 1] [0..n - 1]).
      cell ?a p = HIDDEN_BOARD_CELL_OCCUPIED \<or> cell ?a p = HIDDEN_BOARD_CELL_UNOCCUPIED"
    unfolding set_product_upto using cells by simp
  have "set (occupied_cells n ?a) = set (plane_cells h row col)
          \<and> (\<forall>p \<in> set (plane_cells h row col). in_bounds n p)"
    using occ shape inb by simp
  then have ex: "\<exists>h \<in> set [Heading_Right, Heading_Up, Heading_Left, Heading_Down].
      \<exists>row \<in> set [0..n - 1]. \<exists>col \<in> set [0..n - 1].
        set (occupied_cells n ?a) = set (plane_cells h row col)
        \<and> (\<forall>p \<in> set (plane_cells h row col). in_bounds n p)"
    using h rc by blast
  show ?thesis
    unfolding plane_invariant_def using wf vals cnt ex by (intro conjI)
qed

lemma rbind_Inr: "m g = (Inr x, g') \<Longrightarrow> rbind m f g = f x g'"
  by (simp add: rbind_def)

lemma rbind_rreturn: "rbind (rreturn x) f = f x"
  by (rule ext) (simp add: rbind_def rreturn_def)

lemma rbind_assoc: "rbind (rbind m f) h = rbind m (\<lambda>x. rbind (f x) h)"
  by (rule ext) (simp add: rbind_def split: prod.splits sum.splits)

lemma rbind_setitem_mark:
  assumes "wf_board n a" "in_bounds n (r, c)"
  shows "rbind (rlift (setitem (mark a ps) r c HIDDEN_BOARD_CELL_OCCUPIED)) f g
           = f (mark a (ps @ [(r, c)])) g"
  using rbind_setitem[OF wf_board_mark[OF assms(1)] assms(2), of ps f g]
  unfolding mark_append .

lemma hidden_board_right:
  assumes n: "4 \<le> n"
    and o: "randint 0 3 g = (Inr 0, g1)"
    and r: "randint 1 (n - 2) g1 = (Inr r, g2)" "1 \<le> r" "r \<le> n - 2"
    and c: "randint 2 (n - 2) g2 = (Inr c, g3)" "2 \<le> c" "c \<le> n - 2"
  shows "\<exists>a. initialize_random_hidden_board n g = (Inr a, g3) \<and> plane_invariant n a"
proof -
  let ?z = "replicate (nat n) (replicate (nat n) HIDDEN_BOARD_CELL_UNOCCUPIED)"
  let ?ps = "[(r, c - 2), (r - 1, c - 2), (r + 1, c - 2),
              (r, c), (r + 1, c), (r - 1, c), (r, c + 1), (r, c - 1)]"
  have wfz: "wf_board n ?z"
    using n by (simp add: wf_board_zeros)
  have z: "rlift (np_full n HIDDEN_BOARD_CELL_UNOCCUPIED) g = (Inr (mark ?z []), g)"
    using n by (simp add: rlift_def np_full_def)
  have inb: "\<forall>p \<in> set ?ps. in_bounds n p"
    using r c by (simp add: in_bounds_def)
  note b = inb[simplified]
  note draws =
    rbind_Inr[where m = "rlift (np_full n HIDDEN_BOARD_CELL_UNOCCUPIED)" and g = g, OF z]
    rbind_Inr[where m = "randint 0 3" and g = g, OF o]
    rbind_Inr[where m = "randint 1 (n - 2)" and g = g1, OF r(1)]
    rbind_Inr[where m = "randint 2 (n - 2)" and g = g2, OF c(1)]
  have run: "initialize_random_hidden_board n g = (Inr (mark ?z ?ps), g3)"
    unfolding initialize_random_hidden_board_def
    by (simp add: rbind_assoc rbind_rreturn draws rbind_setitem_mark[OF wfz] b rreturn_def
        PLANE_HEADING_RIGHT_def PLANE_HEADING_UP_def PLANE_HEADING_LEFT_def
        PLANE_HEADING_DOWN_def del: mark.simps)
  have "plane_invariant n (mark ?z ?ps)"
  proof (rule plane_invariant_mark[where h = Heading_Right and row = r and col = c])
    show "0 \<le> n" using n by simp
    show "\<forall>p \<in> set ?ps. in_bounds n p" by (rule inb)
    show "distinct ?ps" by simp
    show "length ?ps = 8" by simp
    show "set ?ps = set (plane_cells Heading_Right r c)"
      by (auto simp: plane_cells_def cross_cells_def)
    show "in_bounds n (r, c)" using b by simp
  qed
  with run show ?thesis by blast
qed

lemma hidden_board_up:
  assumes n: "4 \<le> n"
    and o: "randint 0 3 g = (Inr 1, g1)"
    and r: "randint 1 (n - 3) g1 = (Inr r, g2)" "1 \<le> r" "r \<le> n - 3"
    and c: "randint 1 (n - 3) g2 = (Inr c, g3)" "1 \<le> c" "c \<le> n - 3"
  shows "\<exists>a. initialize_random_hidden_board n g = (Inr a, g3) \<and> plane_invariant n a"
proof -
  let ?z = "replicate (nat n) (replicate (nat n) HIDDEN_BOARD_CELL_UNOCCUPIED)"
  let ?ps = "[(r + 2, c), (r + 2, c + 1), (r + 2, c - 1),
              (r, c), (r + 1, c), (r - 1, c), (r, c + 1), (r, c - 1)]"
  have wfz: "wf_board n ?z"
    using n by (simp add: wf_board_zeros)
  have z: "rlift (np_full n HIDDEN_BOARD_CELL_UNOCCUPIED) g = (Inr (mark ?z []), g)"
    using n by (simp add: rlift_def np_full_def)
  have inb: "\<forall>p \<in> set ?ps. in_bounds n p"
    using r c by (simp add: in_bounds_def)
  note b = inb[simplified]
  note draws =
    rbind_Inr[where m = "rlift (np_full n HIDDEN_BOARD_CELL_UNOCCUPIED)" and g = g, OF z]
    rbind_Inr[where m = "randint 0 3" and g = g, OF o]
    rbind_Inr[where m = "randint 1 (n - 3)" and g = g1, OF r(1)]
    rbind_Inr[where m = "randint 1 (n - 3)" and g = g2, OF c(1)]
  have run: "initialize_random_hidden_board n g = (Inr (mark ?z ?ps), g3)"
    unfolding initialize_random_hidden_board_def
    by (simp add: rbind_assoc rbind_rreturn draws rbind_setitem_mark[OF wfz] b rreturn_def
        PLANE_HEADING_RIGHT_def PLANE_HEADING_UP_def PLANE_HEADING_LEFT_def
        PLANE_HEADING_DOWN_def del: mark.simps)
  have "plane_invariant n (mark ?z ?ps)"
  proof (rule plane_invariant_mark[where h = Heading_Up and row = r and col = c])
    show "0 \<le> n" using n by simp
    show "\<forall>p \<in> set ?ps. in_bounds n p" by (rule inb)
    show "distinct ?ps" by simp
    show "length ?ps = 8" by simp
    show "set ?ps = set (plane_cells Heading_Up r c)"
      by (auto simp: plane_cells_def cross_cells_def)
    show "in_bounds n (r, c)" using b by simp
  qed
  with run show ?thesis by blast
qed

lemma hidden_board_left:
  assumes n: "4 \<le> n"
    and o: "randint 0 3 g = (Inr 2, g1)"
    and r: "randint 1 (n - 2) g1 = (Inr r, g2)" "1 \<le> r" "r \<le> n - 2"
    and c: "randint 1 (n - 3) g2 = (Inr c, g3)" "1 \<le> c" "c \<le> n - 3"
  shows "\<exists>a. initialize_random_hidden_board n g = (Inr a, g3) \<and> plane_invariant n a"
proof -
  let ?z = "replicate (nat n) (replicate (nat n) HIDDEN_BOARD_CELL_UNOCCUPIED)"
  let ?ps = "[(r, c + 2), (r - 1, c + 2), (r + 1, c + 2),
              (r, c), (r + 1, c), (r - 1, c), (r, c + 1), (r, c - 1)]"
  have wfz: "wf_board n ?z"
    using n by (simp add: wf_board_zeros)
  have z: "rlift (np_full n HIDDEN_BOARD_CELL_UNOCCUPIED) g = (Inr (mark ?z []), g)"
    using n by (simp add: rlift_def np_full_def)
  have inb: "\<forall>p \<in> set ?ps. in_bounds n p"
    using r c by (simp add: in_bounds_def)
  note b = inb[simplified]
  note draws =
    rbind_Inr[where m = "rlift (np_full n HIDDEN_BOARD_CELL_UNOCCUPIED)" and g = g, OF z]
    rbind_Inr[where m = "randint 0 3" and g = g, OF o]
    rbind_Inr[where m = "randint 1 (n - 2)" and g = g1, OF r(1)]
    rbind_Inr[where m = "randint 1 (n - 3)" and g = g2, OF c(1)]
  have run: "initialize_random_hidden_board n g = (Inr (mark ?z ?ps), g3)"
    unfolding initialize_random_hidden_board_def
    by (simp add: rbind_assoc rbind_rreturn draws rbind_setitem_mark[OF wfz] b rreturn_def
        PLANE_HEADING_RIGHT_def PLANE_HEADING_UP_def PLANE_HEADING_LEFT_def
        PLANE_HEADING_DOWN_def del: mark.simps)
  have "plane_invariant n (mark ?z ?ps)"
  proof (rule plane_invariant_mark[where h = Heading_Left and row = r and col = c])
    show "0 \<le> n" using n by simp
    show "\<forall>p \<in> set ?ps. in_bounds n p" by (rule inb)
    show "distinct ?ps" by simp
    show "length ?ps = 8" by simp
    show "set ?ps = set (plane_cells Heading_Left r c)"
      by (auto simp: plane_cells_def cross_cells_def)
    show "in_bounds n (r, c)" using b by simp
  qed
  with run show ?thesis by blast
qed

lemma hidden_board_down:
  assumes n: "4 \<le> n"
    and o: "randint 0 3 g = (Inr 3, g1)"
    and r: "randint 2 (n - 2) g1 = (Inr r, g2)" "2 \<le> r" "r \<le> n - 2"
    and c: "randint 1 (n - 2) g2 = (Inr c, g3)" "1 \<le> c" "c \<le> n - 2"
  shows "\<exists>a. initialize_random_hidden_board n g = (Inr a, g3) \<and> plane_invariant n a"
proof -
  let ?z = "replicate (nat n) (replicate (nat n) HIDDEN_BOARD_CELL_UNOCCUPIED)"
  let ?ps = "[(r - 2, c), (r - 2, c + 1), (r - 2, c - 1),
              (r, c), (r + 1, c), (r - 1, c), (r, c + 1), (r, c - 1)]"
  have wfz: "wf_board n ?z"
    using n by (simp add: wf_board_zeros)
  have z: "rlift (np_full n HIDDEN_BOARD_CELL_UNOCCUPIED) g = (Inr (mark ?z []), g)"
    using n by (simp add: rlift_def np_full_def)
  have inb: "\<forall>p \<in> set ?ps. in_bounds n p"
    using r c by (simp add: in_bounds_def)
  note b = inb[simplified]
  note draws =
    rbind_Inr[where m = "rlift (np_full n HIDDEN_BOARD_CELL_UNOCCUPIED)" and g = g, OF z]
    rbind_Inr[where m = "randint 0 3" and g = g, OF o]
    rbind_Inr[where m = "randint 2 (n - 2)" and g = g1, OF r(1)]
    rbind_Inr[where m = "randint 1 (n - 2)" and g = g2, OF c(1)]
  have run: "initialize_random_hidden_board n g = (Inr (mark ?z ?ps), g3)"
    unfolding initialize_random_hidden_board_def
    by (simp add: rbind_assoc rbind_rreturn draws rbind_setitem_mark[OF wfz] b rreturn_def
        PLANE_HEADING_RIGHT_def PLANE_HEADING_UP_def PLANE_HEADING_LEFT_def
        PLANE_HEADING_DOWN_def del: mark.simps)
  have "plane_invariant n (mark ?z ?ps)"
  proof (rule plane_invariant_mark[where h = Heading_Down and row = r and col = c])
    show "0 \<le> n" using n by simp
    show "\<forall>p \<in> set ?ps. in_bounds n p" by (rule inb)
    show "distinct ?ps" by simp
    show "length ?ps = 8" by simp
    show "set ?ps = set (plane_cells Heading_Down r c)"
      by (auto simp: plane_cells_def cross_cells_def)
    show "in_bounds n (r, c)" using b by simp
  qed
  with run show ?thesis by blast
qed

lemma hidden_board_plane:
  assumes n: "4 \<le> n"
  shows "\<exists>a g'. initialize_random_hidden_board n g = (Inr a, g') \<and> plane_invariant n a"
proof -
  let ?g1 = "\<lambda>k. g (Suc k)"
  let ?g2 = "\<lambda>k. ?g1 (Suc k)"
  obtain po where po: "randint 0 3 g = (Inr po, ?g1)" "0 \<le> po" "po \<le> 3"
    using randint_in_range[of 0 3 g] by auto
  from po(2,3) consider "po = 0" | "po = 1" | "po = 2" | "po = 3"
    by linarith
  then show ?thesis
  proof cases
    case 1
    obtain r where r: "randint 1 (n - 2) ?g1 = (Inr r, ?g2)" "1 \<le> r" "r \<le> n - 2"
      using randint_in_range[of 1 "n - 2" ?g1] n by auto
    obtain c where c: "randint 2 (n - 2) ?g2 = (Inr c, \<lambda>k. ?g2 (Suc k))" "2 \<le> c" "c \<le> n - 2"
      using randint_in_range[of 2 "n - 2" ?g2] n by auto
    show ?thesis
      using hidden_board_right[OF n po(1)[unfolded 1] r c] by blast
  next
    case 2
    obtain r where r: "randint 1 (n - 3) ?g1 = (Inr r, ?g2)" "1 \<le> r" "r \<le> n - 3"
      using randint_in_range[of 1 "n - 3" ?g1] n by auto
    obtain c where c: "randint 1 (n - 3) ?g2 = (Inr c, \<lambda>k. ?g2 (Suc k))" "1 \<le> c" "c \<le> n - 3"
      using randint_in_range[of 1 "n - 3" ?g2] n by auto
    show ?thesis
      using hidden_board_up[OF n po(1)[unfolded 2] r c] by blast
  next
    case 3
    obtain r where r: "randint 1 (n - 2) ?g1 = (Inr r, ?g2)" "1 \<le> r" "r \<le> n - 2"
      using randint_in_range[of 1 "n - 2" ?g1] n by auto
    obtain c where c: "randint 1 (n - 3) ?g2 = (Inr c, \<lambda>k. ?g2 (Suc k))" "1 \<le> c" "c \<le> n - 3"
      using randint_in_range[of 1 "n - 3" ?g2] n by auto
    show ?thesis
      using hidden_board_left[OF n po(1)[unfolded 3] r c] by blast
  next
    case 4
    obtain r where r: "randint 2 (n - 2) ?g1 = (Inr r, ?g2)" "2 \<le> r" "r \<le> n - 2"
      using randint_in_range[of 2 "n - 2" ?g1] n by auto
    obtain c where c: "randint 1 (n - 2) ?g2 = (Inr c, \<lambda>k. ?g2 (Suc k))" "1 \<le> c" "c \<le> n - 2"
      using randint_in_range[of 1 "n - 2" ?g2] n by auto
    show ?thesis
      using hidden_board_down[OF n po(1)[unfolded 4] r c] by blast
  qed
qed

subsection \<open>The methods of the session\<close>

lemma set_boards_run:
  assumes "4 \<le> self_board_size self"
  shows "\<exists>hidden g'.
           initialize_random_hidden_board (self_board_size self) g = (Inr hidden, g')
         \<and> plane_invariant (self_board_size self) hidden
         \<and> set_boards self g =
             (Inr (),
              self\<lparr>self_plane_size := PLANE_SIZE, self_hit_count := 0,
                   self_visible_board := untried_board (self_board_size self),
                   self_hidden_board := hidden\<rparr>,
              g')"
proof -
  obtain hidden g' where h:
    "initialize_random_hidden_board (self_board_size self) g = (Inr hidden, g')"
    "plane_invariant (self_board_size self) hidden"
    using hidden_board_plane[OF assms, of g] by blast
  have "set_boards self g =
          (Inr (),
           self\<lparr>self_plane_size := PLANE_SIZE, self_hit_count := 0,
                self_visible_board := untried_board (self_board_size self),
                self_hidden_board := hidden\<rparr>,
           g')"
    using assms h(1)
    by (simp add: set_boards_def np_full_def untried_board_def VISIBLE_BOARD_CELL_UNTRIED_def)
  with h show ?thesis by blast
qed






lemma init_run:
  assumes "n = (case board_size_arg of None \<Rightarrow> BOARD_SIZE | Some k \<Rightarrow> k)" "4 \<le> n"
  shows "\<exists>self hidden g'.
           init board_size_arg discount_arg max_steps_arg g = (Inr self, g')
         \<and> initialize_random_hidden_board n g = (Inr hidden, g')
         \<and> plane_invariant n hidden
         \<and> self_board_size self = n
         \<and> self_strike_count self = 0
         \<and> self_hit_count self = 0
         \<and> \<not> self_episode_ended self
         \<and> self_plane_size self = PLANE_SIZE
         \<and> self_max_steps self = (case max_steps_arg of None \<Rightarrow> MAX_STEPS_PER_EPISODE | Some m \<Rightarrow> m)
         \<and> self_visible_board self = untried_board n
         \<and> self_hidden_board self = hidden"
proof -
  let ?spec = "\<lparr>spec_shape = [n, n], spec_minimum = VISIBLE_BOARD_CELL_MISS,
                 spec_maximum = VISIBLE_BOARD_CELL_HIT\<rparr>"
  let ?s = "\<lparr>self_board_size = n, self_strike_count = 0,
              self_discount = (case discount_arg of None \<Rightarrow> 9 / 10 | Some d \<Rightarrow> d),
              self_max_steps = (case max_steps_arg of None \<Rightarrow> MAX_STEPS_PER_EPISODE | Some m \<Rightarrow> m),
              self_episode_ended = False,
              self_action_spec = \<lparr>spec_shape = [], spec_minimum = 0, spec_maximum = n ^ 2 - 1\<rparr>,
              self_observation_spec = ?spec, self_time_step_spec = ?spec,
              self_plane_size = 0, self_hit_count = 0,
              self_visible_board = [], self_hidden_board = []\<rparr>"
  have "4 \<le> self_board_size ?s" using assms(2) by simp
  from set_boards_run[OF this, of g] obtain hidden g' where h:
    "initialize_random_hidden_board n g = (Inr hidden, g')"
    "plane_invariant n hidden"
    "set_boards ?s g =
       (Inr (),
        ?s\<lparr>self_plane_size := PLANE_SIZE, self_hit_count := 0,
           self_visible_board := untried_board n,
           self_hidden_board := hidden\<rparr>,
        g')"
    by auto
  have "init board_size_arg discount_arg max_steps_arg g =
          (Inr (?s\<lparr>self_plane_size := PLANE_SIZE, self_hit_count := 0,
                   self_visible_board := untried_board n,
                   self_hidden_board := hidden\<rparr>), g')"
    using assms h(3) by (simp add: init_def Let_def)
  with h(1,2) show ?thesis by simp
qed

lemma fixed_draws_next: "(\<lambda>k. fixed_draws d (Suc k)) = fixed_draws d"
  by (rule ext) (simp add: fixed_draws_def)

lemmas consts_defs =
  BOARD_SIZE_def PLANE_SIZE_def MAX_STEPS_PER_EPISODE_def PLANE_HEADING_RIGHT_def
  PLANE_HEADING_UP_def PLANE_HEADING_LEFT_def PLANE_HEADING_DOWN_def
  HIDDEN_BOARD_CELL_OCCUPIED_def HIDDEN_BOARD_CELL_UNOCCUPIED_def
  VISIBLE_BOARD_CELL_HIT_def VISIBLE_BOARD_CELL_MISS_def VISIBLE_BOARD_CELL_UNTRIED_def

lemma board_4x4:
  "initialize_random_hidden_board 4 (fixed_draws 0)
     = (Inr [[1, 0, 1, 0], [1, 1, 1, 1], [1, 0, 1, 0], [0, 0, 0, 0]], fixed_draws 0)"
proof -
  have d: "randint a b (fixed_draws 0) = (if b < a then (Inl (ValueError ''empty range for randrange()''), fixed_draws 0) else (Inr a, fixed_draws 0))" for a b
    by (simp add: randint_def fixed_draws_next) (simp add: fixed_draws_def)
  show ?thesis
    unfolding initialize_random_hidden_board_def
    by (simp add: rbind_def rlift_def rreturn_def d
      np_full_def setitem_def consts_defs Let_def eval_nat_numeral)
qed

lemma init_4x4:
  "init (Some 4) None max_steps_arg (fixed_draws 0)
     = (Inr (session_4x4\<lparr>self_max_steps :=
               (case max_steps_arg of None \<Rightarrow> 64 | Some m \<Rightarrow> m)\<rparr>), fixed_draws 0)"
  by (simp add: init_def set_boards_def board_4x4 np_full_def session_4x4_def consts_defs
      Let_def eval_nat_numeral split: option.splits)


subsection \<open>The claims\<close>

text \<open>
  C1: for every board size of at least 4 and every state of the random source,
  \<open>initialize_random_hidden_board\<close> returns a board, and that board has exactly eight
  occupied cells, which are the five cells of a cross and the three cells of a tail of
  one of the four templates, every one of them with row and column in \<open>[0, board_size)\<close>.
\<close>

theorem initialize_random_hidden_board_plane:
  "4 \<le> board_size \<Longrightarrow>
     \<exists>hidden g'. initialize_random_hidden_board board_size g = (Inr hidden, g')
                \<and> plane_invariant board_size hidden"
  by (rule hidden_board_plane)

theorem initialize_random_hidden_board_plane_witness:
  "(4::int) \<le> 4
   \<and> fst (initialize_random_hidden_board 4 (fixed_draws 0))
       = Inr [[1, 0, 1, 0], [1, 1, 1, 1], [1, 0, 1, 0], [0, 0, 0, 0]]
   \<and> plane_invariant 4 [[1, 0, 1, 0], [1, 1, 1, 1], [1, 0, 1, 0], [0, 0, 0, 0]]"
  using initialize_random_hidden_board_plane[of 4 "fixed_draws 0"]
  by (simp add: board_4x4)

text \<open>
  C2: a step is to end the episode when the hit count reaches 8 or the strike count
  reaches \<open>max_steps\<close>, and to report a reward and a terminal flag. The method does none
  of it: on the session built with \<open>board_size = 4\<close> and \<open>max_steps = 1\<close>, the one strike
  the budget allows returns \<open>None\<close>, with no time step, and leaves the strike count at 0
  and the episode not ended.
\<close>

theorem step_ignores_budget:
  "fst (init (Some 4) None (Some 1) (fixed_draws 0)) = Inr (session_4x4\<lparr>self_max_steps := 1\<rparr>)
   \<and> step (session_4x4\<lparr>self_max_steps := 1\<rparr>) 3
       = (Inr None, session_4x4\<lparr>self_max_steps := 1\<rparr>)
   \<and> self_strike_count (snd (step (session_4x4\<lparr>self_max_steps := 1\<rparr>) 3)) = 0
   \<and> self_episode_ended (snd (step (session_4x4\<lparr>self_max_steps := 1\<rparr>) 3)) = False"
  by (simp add: init_4x4 step_def session_4x4_def)







text \<open>
  C6: a step with an action outside \<open>[0, board_size^2 - 1]\<close> is to fail with an
  invalid-argument error. The method raises nothing: on the 4 by 4 session, whose action
  specification ends at 15, the actions 16 and \<open>-1\<close> return \<open>None\<close>. The session is left
  as it was.
\<close>

theorem step_ignores_invalid_action:
  "step session_4x4 16 = (Inr None, session_4x4)
   \<and> step session_4x4 (- 1) = (Inr None, session_4x4)
   \<and> spec_maximum (self_action_spec session_4x4) = 15"
  by (simp add: step_def session_4x4_def)

text \<open>
  C7: constructing a session with a board size below 4 fails with AssertionError, and
  constructing one with a board size of at least 4 does not raise that error.
\<close>

theorem init_asserts_board_size:
  "(n < 4 \<longrightarrow> init (Some n) discount_arg max_steps_arg g = (Inl AssertionError, g))
   \<and> (4 \<le> n \<longrightarrow> fst (init (Some n) discount_arg max_steps_arg g) \<noteq> Inl AssertionError)"
proof (intro conjI impI)
  assume "n < 4"
  then show "init (Some n) discount_arg max_steps_arg g = (Inl AssertionError, g)"
    by (simp add: init_def)
next
  assume "4 \<le> n"
  with init_run[of n "Some n" discount_arg max_steps_arg g]
  show "fst (init (Some n) discount_arg max_steps_arg g) \<noteq> Inl AssertionError"
    by auto
qed

theorem init_asserts_board_size_witness:
  "(3::int) < 4
   \<and> init (Some 3) None None (fixed_draws 0) = (Inl AssertionError, fixed_draws 0)
   \<and> (4::int) \<le> 4
   \<and> fst (init (Some 4) None None (fixed_draws 0)) \<noteq> Inl AssertionError"
  using init_asserts_board_size[of 3 None None "fixed_draws 0"]
    init_asserts_board_size[of 4 None None "fixed_draws 0"]
  by simp

text \<open>
  C8: \<open>render\<close> fails with an invalid-argument error (ValueError) for every mode other
  than \<open>human\<close>, and \<open>render\<close> with the mode \<open>human\<close> returns the current visible board.
\<close>

theorem render_mode:
  "(mode \<noteq> ''human'' \<longrightarrow> (\<exists>msg. fst (render self mode) = Inl (ValueError msg)))
   \<and> fst (render self ''human'') = Inr (self_visible_board self)"
  by (simp add: render_def)

theorem render_mode_witness:
  "''rgb_array'' \<noteq> ''human''
   \<and> (\<exists>msg. fst (render session_4x4 ''rgb_array'') = Inl (ValueError msg))
   \<and> fst (render session_4x4 ''human'') = Inr (self_visible_board session_4x4)"
  using render_mode[of "''rgb_array''" session_4x4] by simp



text \<open>
  C10: \<open>render\<close> with the mode \<open>human\<close> leaves the session as it was: every field is
  the same before and after the call.
\<close>

theorem render_frame: "snd (render self ''human'') = self"
  by (simp add: render_def)

theorem render_frame_witness: "snd (render session_4x4 ''human'') = session_4x4"
  using render_frame[of session_4x4] by simp

end
